theory Spec2Isabelle
  imports Main
begin

section \<open>The toast store (src/store/toast.ts)\<close>

text \<open>
  The store created at line 68 holds two data fields. Its two actions call zustand's
  \<open>set\<close> with an object naming both fields, which \<open>set\<close> merges into the current state.
\<close>

record ToastState =
  isVisible :: bool
  message :: string

definition toast_initial :: ToastState where
  "toast_initial = \<lparr>isVisible = False, message = ''''\<rparr>"

definition showToast :: "string \<Rightarrow> ToastState \<Rightarrow> ToastState" where
  "showToast m t = t\<lparr>isVisible := True, message := m\<rparr>"

definition hideToast :: "ToastState \<Rightarrow> ToastState" where
  "hideToast t = t\<lparr>isVisible := False, message := ''''\<rparr>"

text \<open>A caller of the store picks one of the two actions; a history is a list of picks.\<close>

datatype toast_call = ShowToast string | HideToast

fun toast_apply :: "toast_call \<Rightarrow> ToastState \<Rightarrow> ToastState" where
  "toast_apply (ShowToast m) t = showToast m t"
| "toast_apply HideToast t = hideToast t"

definition toast_run :: "toast_call list \<Rightarrow> ToastState \<Rightarrow> ToastState" where
  "toast_run cs t = fold toast_apply cs t"


section \<open>The nickname editor (src/components/my_page/edit_nickname.tsx)\<close>

subsection \<open>Component state\<close>

text \<open>
  One field per \<open>useState\<close> hook of lines 14 to 19. Text is kept as the UTF-8 bytes of
  the source file, so an ASCII literal reads as itself and the empty string is \<open>[]\<close>.
\<close>

record EditNickname =
  newNickname :: string
  isNicknameVerified :: bool
  isLoading :: bool
  isError :: bool
  errorMessage :: string
  showNicknameEdit :: bool

definition EditNickname_initial :: EditNickname where
  "EditNickname_initial =
     \<lparr>newNickname = '''', isNicknameVerified = False, isLoading = False,
      isError = False, errorMessage = '''', showNicknameEdit = False\<rparr>"

text \<open>The literal of line 56 (63 bytes).\<close>

definition server_error_message :: string where
  "server_error_message =
  [
    CHR 0xEC, CHR 0x84, CHR 0x9C, CHR 0xEB, CHR 0xB2, CHR 0x84, CHR 0x20, CHR 0xEC,
    CHR 0x98, CHR 0xA4, CHR 0xEB, CHR 0xA5, CHR 0x98, CHR 0xEA, CHR 0xB0, CHR 0x80,
    CHR 0x20, CHR 0xEB, CHR 0xB0, CHR 0x9C, CHR 0xEC, CHR 0x83, CHR 0x9D, CHR 0xED,
    CHR 0x96, CHR 0x88, CHR 0xEC, CHR 0x8A, CHR 0xB5, CHR 0xEB, CHR 0x8B, CHR 0x88,
    CHR 0xEB, CHR 0x8B, CHR 0xA4, CHR 0x2E, CHR 0x20, CHR 0xEB, CHR 0x8B, CHR 0xA4,
    CHR 0xEC, CHR 0x8B, CHR 0x9C, CHR 0x20, CHR 0xEC, CHR 0x8B, CHR 0x9C, CHR 0xEB,
    CHR 0x8F, CHR 0x84, CHR 0xED, CHR 0x95, CHR 0xB4, CHR 0xEC, CHR 0xA3, CHR 0xBC,
    CHR 0xEC, CHR 0x84, CHR 0xB8, CHR 0xEC, CHR 0x9A, CHR 0x94, CHR 0x2E
  ]"

text \<open>The literal of line 72 (39 bytes).\<close>

definition update_failed_message :: string where
  "update_failed_message =
  [
    CHR 0xEB, CHR 0x8B, CHR 0x89, CHR 0xEB, CHR 0x84, CHR 0xA4, CHR 0xEC, CHR 0x9E,
    CHR 0x84, CHR 0x20, CHR 0xEB, CHR 0xB3, CHR 0x80, CHR 0xEA, CHR 0xB2, CHR 0xBD,
    CHR 0xEC, CHR 0x97, CHR 0x90, CHR 0x20, CHR 0xEC, CHR 0x8B, CHR 0xA4, CHR 0xED,
    CHR 0x8C, CHR 0xA8, CHR 0xED, CHR 0x96, CHR 0x88, CHR 0xEC, CHR 0x8A, CHR 0xB5,
    CHR 0xEB, CHR 0x8B, CHR 0x88, CHR 0xEB, CHR 0x8B, CHR 0xA4, CHR 0x2E
  ]"

text \<open>The first argument of \<open>console.error\<close> at line 70 (24 bytes).\<close>

definition update_failed_log :: string where
  "update_failed_log =
  [
    CHR 0xEB, CHR 0x8B, CHR 0x89, CHR 0xEB, CHR 0x84, CHR 0xA4, CHR 0xEC, CHR 0x9E,
    CHR 0x84, CHR 0x20, CHR 0xEB, CHR 0xB3, CHR 0x80, CHR 0xEA, CHR 0xB2, CHR 0xBD,
    CHR 0x20, CHR 0xEC, CHR 0x8B, CHR 0xA4, CHR 0xED, CHR 0x8C, CHR 0xA8, CHR 0x3A
  ]"

subsection \<open>The outside world\<close>

text \<open>
  A promise of \<open>userApi\<close> either fulfils with a value or rejects. The answer of
  \<open>validateNickname\<close> carries the two fields the handler reads, \<open>exists\<close> and \<open>message\<close>,
  in this order.
\<close>

datatype 'a settled = Fulfilled 'a | Rejected

datatype ValidateResponse = ValidateResponse bool string

text \<open>
  What a handler does beyond writing the component state: the two calls to \<open>userApi\<close>,
  the call of the \<open>onNicknameChange\<close> prop and the diagnostic of line 70. The prop is
  taken to return normally.
\<close>

datatype effect =
    ValidateNickname string
  | UpdateNickname string
  | OnNicknameChange string
  | ConsoleError string

subsection \<open>Handlers\<close>

text \<open>
  \<open>handleClickOutside\<close>, lines 25 to 35. \<open>editBoxRef.current\<close> is the edit box exactly
  when the box is rendered (line 89), and the argument says whether the event's target
  lies inside it.
\<close>

definition handleClickOutside :: "bool \<Rightarrow> EditNickname \<Rightarrow> EditNickname" where
  "handleClickOutside target_inside s =
     (if showNicknameEdit s \<and> \<not> target_inside
      then s\<lparr>showNicknameEdit := False, isError := False, errorMessage := '''',
             isNicknameVerified := False\<rparr>
      else s)"

text \<open>
  \<open>handleNicknameCheck\<close>, lines 40 to 60, in the two pieces the \<open>await\<close> of line 45 cuts
  it into. The first piece runs up to the call and returns the argument of the request
  it sent, or \<open>None\<close> after the early return of line 41. The second piece runs when the
  promise settles: the \<open>try\<close> body or the \<open>catch\<close>, then the \<open>finally\<close>.
\<close>

definition handleNicknameCheck_begin :: "EditNickname \<Rightarrow> EditNickname \<times> string option" where
  "handleNicknameCheck_begin s =
     (if newNickname s = [] then (s, None)
      else (s\<lparr>isLoading := True, isError := False\<rparr>, Some (newNickname s)))"

fun handleNicknameCheck_settle ::
  "ValidateResponse settled \<Rightarrow> EditNickname \<Rightarrow> EditNickname" where
  "handleNicknameCheck_settle (Fulfilled (ValidateResponse ex msg)) s =
     (if ex then s\<lparr>isError := True, errorMessage := msg\<rparr>
      else s\<lparr>isNicknameVerified := True, errorMessage := ''''\<rparr>)"
| "handleNicknameCheck_settle Rejected s =
     s\<lparr>isError := True, errorMessage := server_error_message\<rparr>"

definition handleNicknameCheck_resume ::
  "ValidateResponse settled \<Rightarrow> EditNickname \<Rightarrow> EditNickname" where
  "handleNicknameCheck_resume r s = (handleNicknameCheck_settle r s)\<lparr>isLoading := False\<rparr>"

text \<open>
  \<open>handleSave\<close>, lines 63 to 74, cut at the \<open>await\<close> of line 66. The continuation keeps the
  \<open>newNickname\<close> its closure was created with, so it takes that value as an argument.
\<close>

definition handleSave_begin :: "EditNickname \<Rightarrow> EditNickname \<times> string option" where
  "handleSave_begin s =
     (if \<not> isNicknameVerified s then (s, None) else (s, Some (newNickname s)))"

fun handleSave_resume ::
  "string \<Rightarrow> unit settled \<Rightarrow> EditNickname \<Rightarrow> EditNickname \<times> effect list" where
  "handleSave_resume v (Fulfilled u) s =
     (s\<lparr>showNicknameEdit := False\<rparr>, [OnNicknameChange v])"
| "handleSave_resume v Rejected s =
     (s\<lparr>isError := True, errorMessage := update_failed_message\<rparr>,
      [ConsoleError update_failed_log])"

definition handleSave ::
  "unit settled \<Rightarrow> EditNickname \<Rightarrow> EditNickname \<times> effect list" where
  "handleSave r s =
     (case handleSave_begin s of
        (s1, None) \<Rightarrow> (s1, [])
      | (s1, Some v) \<Rightarrow>
          (case handleSave_resume v r s1 of (s2, es) \<Rightarrow> (s2, UpdateNickname v # es)))"

text \<open>The inline handlers of the change button (line 83) and of the input (line 105).\<close>

definition onClick_change :: "EditNickname \<Rightarrow> EditNickname" where
  "onClick_change s = s\<lparr>showNicknameEdit := True\<rparr>"

definition onChange_input :: "string \<Rightarrow> EditNickname \<Rightarrow> EditNickname" where
  "onChange_input v s = s\<lparr>newNickname := v\<rparr>"

text \<open>The \<open>disabled\<close> attributes of lines 108, 122 and 136.\<close>

definition input_disabled :: "EditNickname \<Rightarrow> bool" where
  "input_disabled s = (isLoading s \<or> isNicknameVerified s)"

definition check_disabled :: "EditNickname \<Rightarrow> bool" where
  "check_disabled s = (newNickname s = [] \<or> isNicknameVerified s \<or> isLoading s)"

definition save_disabled :: "EditNickname \<Rightarrow> bool" where
  "save_disabled s = (\<not> isNicknameVerified s)"

subsection \<open>Runs of the component\<close>

text \<open>
  The component together with the requests that have been sent and not yet answered
  (each with the nickname it was sent for) and the log of every effect so far. The
  browser delivers one event at a time, and the state a handler wrote is rendered before
  the next event arrives. The input and the two lower buttons exist only while the box
  is rendered, and a disabled control delivers no event.
\<close>

record world =
  comp :: EditNickname
  checks :: "string list"
  saves :: "string list"
  calls :: "effect list"

definition world_initial :: world where
  "world_initial = \<lparr>comp = EditNickname_initial, checks = [], saves = [], calls = []\<rparr>"

datatype event =
    ClickChange
  | TypeInput string
  | ClickCheck
  | ClickSave
  | MouseDown bool
  | CheckSettled nat "ValidateResponse settled"
  | SaveSettled nat "unit settled"

definition drop_nth :: "nat \<Rightarrow> 'a list \<Rightarrow> 'a list" where
  "drop_nth i xs = take i xs @ drop (Suc i) xs"

fun step :: "event \<Rightarrow> world \<Rightarrow> world" where
  "step ClickChange w = w\<lparr>comp := onClick_change (comp w)\<rparr>"
| "step (TypeInput v) w =
     (if showNicknameEdit (comp w) \<and> \<not> input_disabled (comp w)
      then w\<lparr>comp := onChange_input v (comp w)\<rparr> else w)"
| "step ClickCheck w =
     (if showNicknameEdit (comp w) \<and> \<not> check_disabled (comp w)
      then (case handleNicknameCheck_begin (comp w) of
              (s1, None) \<Rightarrow> w\<lparr>comp := s1\<rparr>
            | (s1, Some v) \<Rightarrow>
                w\<lparr>comp := s1, checks := checks w @ [v],
                  calls := calls w @ [ValidateNickname v]\<rparr>)
      else w)"
| "step ClickSave w =
     (if showNicknameEdit (comp w) \<and> \<not> save_disabled (comp w)
      then (case handleSave_begin (comp w) of
              (s1, None) \<Rightarrow> w\<lparr>comp := s1\<rparr>
            | (s1, Some v) \<Rightarrow>
                w\<lparr>comp := s1, saves := saves w @ [v],
                  calls := calls w @ [UpdateNickname v]\<rparr>)
      else w)"
| "step (MouseDown target_inside) w =
     w\<lparr>comp := handleClickOutside target_inside (comp w)\<rparr>"
| "step (CheckSettled i r) w =
     (if i < length (checks w)
      then w\<lparr>comp := handleNicknameCheck_resume r (comp w),
             checks := drop_nth i (checks w)\<rparr>
      else w)"
| "step (SaveSettled i r) w =
     (if i < length (saves w)
      then (case handleSave_resume (saves w ! i) r (comp w) of
              (s1, es) \<Rightarrow>
                w\<lparr>comp := s1, saves := drop_nth i (saves w), calls := calls w @ es\<rparr>)
      else w)"

definition run :: "event list \<Rightarrow> world \<Rightarrow> world" where
  "run es w = fold step es w"

text \<open>
  While a check is pending \<open>isLoading\<close> is set, and it is cleared when the answer
  arrives: the number of unanswered checks and the flag go together.
\<close>

definition inflight_inv :: "world \<Rightarrow> bool" where
  "inflight_inv w = (length (checks w) = (if isLoading (comp w) then 1 else 0))"

text \<open>The convention of the toast store: a hidden toast has no message.\<close>

definition toast_inv :: "ToastState \<Rightarrow> bool" where
  "toast_inv t = (\<not> isVisible t \<longrightarrow> message t = '''')"

text \<open>
  The component after this history: the box is opened, \<open>alice\<close> is typed and found
  free, a first save is rejected and a second one succeeds, which closes the box.
\<close>

definition saved_on_retry :: "event list" where
  "saved_on_retry =
     [ClickChange, TypeInput ''alice'', ClickCheck,
      CheckSettled 0 (Fulfilled (ValidateResponse False '''')),
      ClickSave, SaveSettled 0 Rejected, ClickSave, SaveSettled 0 (Fulfilled ())]"

definition closed_after_retry :: EditNickname where
  "closed_after_retry =
     \<lparr>newNickname = ''alice'', isNicknameVerified = True, isLoading = False,
      isError = True, errorMessage = update_failed_message, showNicknameEdit = False\<rparr>"


text \<open>Three states of the open box: a fresh draft, a verified draft, a rejected save.\<close>

definition editing_draft :: EditNickname where
  "editing_draft =
     \<lparr>newNickname = ''bob'', isNicknameVerified = False, isLoading = False,
      isError = False, errorMessage = '''', showNicknameEdit = True\<rparr>"

definition editing_verified :: EditNickname where
  "editing_verified =
     \<lparr>newNickname = ''alice'', isNicknameVerified = True, isLoading = False,
      isError = False, errorMessage = '''', showNicknameEdit = True\<rparr>"

definition editing_save_failed :: EditNickname where
  "editing_save_failed =
     \<lparr>newNickname = ''alice'', isNicknameVerified = True, isLoading = False,
      isError = True, errorMessage = update_failed_message, showNicknameEdit = True\<rparr>"


text \<open>
  A check seen in a run: \<open>before_check pre\<close> is the component when the check button is
  clicked after the history \<open>pre\<close>; \<open>answered pre mid r\<close> is the component when the
  answer \<open>r\<close> to that check has been handled, the events \<open>mid\<close> having been handled
  between the click and the answer.
\<close>

definition before_check :: "event list \<Rightarrow> EditNickname" where
  "before_check pre = comp (run pre world_initial)"

definition answered ::
  "event list \<Rightarrow> event list \<Rightarrow> ValidateResponse settled \<Rightarrow> EditNickname" where
  "answered pre mid r =
     comp (step (CheckSettled 0 r) (run mid (step ClickCheck (run pre world_initial))))"

text \<open>The events that answer a check, and those that reject a save.\<close>

fun is_check_answer :: "event \<Rightarrow> bool" where
  "is_check_answer (CheckSettled i r) = True"
| "is_check_answer e = False"

fun is_save_rejection :: "event \<Rightarrow> bool" where
  "is_save_rejection (SaveSettled i Rejected) = True"
| "is_save_rejection e = False"

text \<open>
  A check is awaited: the flag is set, the draft is not verified and one request is
  unanswered. It is awaited cleanly when, besides, no error is shown.
\<close>

definition awaiting :: "world \<Rightarrow> bool" where
  "awaiting w =
     (isLoading (comp w) \<and> \<not> isNicknameVerified (comp w) \<and> length (checks w) = 1)"

definition awaiting_clean :: "world \<Rightarrow> bool" where
  "awaiting_clean w = (awaiting w \<and> \<not> isError (comp w))"

text \<open>
  A history that leaves a save of \<open>alice\<close> unanswered behind a reopened box holding the
  fresh draft \<open>bob\<close>: open, type \<open>alice\<close>, check (free), save, press outside, reopen,
  type \<open>bob\<close>.
\<close>

definition save_left_pending :: "event list" where
  "save_left_pending =
     [ClickChange, TypeInput ''alice'', ClickCheck,
      CheckSettled 0 (Fulfilled (ValidateResponse False '''')),
      ClickSave, MouseDown False, ClickChange, TypeInput ''bob'']"


section \<open>Properties of the toast store\<close>

lemma toast_run_Nil: "toast_run [] t = t"
  by (simp add: toast_run_def)

lemma toast_run_Cons: "toast_run (c # cs) t = toast_run cs (toast_apply c t)"
  by (simp add: toast_run_def)

lemma showToast_fold_last:
  "ms \<noteq> [] \<Longrightarrow> fold showToast ms t = \<lparr>isVisible = True, message = last ms\<rparr>"
proof (induction ms arbitrary: t)
  case Nil
  then show ?case by simp
next
  case (Cons m ms)
  show ?case
  proof (cases "ms = []")
    case True
    then show ?thesis by (simp add: showToast_def)
  next
    case False
    with Cons.IH [of "showToast m t"] show ?thesis by simp
  qed
qed

text \<open>
  Claim C8. After any non-empty sequence of \<open>showToast\<close> calls, started in any state of
  the store, the toast is visible and shows the message of the last call. A show on top
  of a show leaves the same store as the second show alone: the earlier message is
  overwritten, nothing is queued.
\<close>

theorem showToast_last_write_wins:
  "ms \<noteq> [] \<Longrightarrow>
     isVisible (fold showToast ms t) \<and> message (fold showToast ms t) = last ms \<and>
     showToast m2 (showToast m1 t) = showToast m2 t"
  by (simp add: showToast_fold_last) (simp add: showToast_def)

theorem showToast_last_write_wins_witness:
  "isVisible (fold showToast [''saved'', ''uploaded''] toast_initial) \<and>
   message (fold showToast [''saved'', ''uploaded''] toast_initial) = ''uploaded'' \<and>
   showToast ''uploaded'' (showToast ''saved'' toast_initial) =
     showToast ''uploaded'' toast_initial"
proof -
  have ne: "[''saved'', ''uploaded''] \<noteq> []" by simp
  from showToast_last_write_wins
    [OF ne, where t = toast_initial and ?m1.0 = "''saved''" and ?m2.0 = "''uploaded''"]
  show ?thesis by (simp add: showToast_def)
qed

lemma toast_apply_inv: "toast_inv (toast_apply c t)"
  by (cases c) (simp_all add: toast_inv_def showToast_def hideToast_def)

lemma toast_run_inv: "toast_inv t \<Longrightarrow> toast_inv (toast_run cs t)"
proof (induction cs arbitrary: t)
  case Nil
  then show ?case by (simp add: toast_run_Nil)
next
  case (Cons c cs)
  have "toast_inv (toast_apply c t)" by (rule toast_apply_inv)
  then show ?case by (simp add: toast_run_Cons Cons.IH)
qed

text \<open>
  Claim C9. In every state the store reaches from its initial state by \<open>showToast\<close> and
  \<open>hideToast\<close> calls, a hidden toast has the empty message.
\<close>

theorem toast_hidden_message_empty:
  "\<not> isVisible (toast_run cs toast_initial) \<longrightarrow> message (toast_run cs toast_initial) = ''''"
proof -
  have "toast_inv toast_initial" by (simp add: toast_inv_def toast_initial_def)
  then have "toast_inv (toast_run cs toast_initial)" by (rule toast_run_inv)
  then show ?thesis by (simp add: toast_inv_def)
qed

theorem toast_hidden_message_empty_witness:
  "\<not> isVisible (toast_run [ShowToast ''saved'', HideToast] toast_initial) \<and>
   message (toast_run [ShowToast ''saved'', HideToast] toast_initial) = ''''"
proof -
  have hidden: "\<not> isVisible (toast_run [ShowToast ''saved'', HideToast] toast_initial)"
    by (simp add: toast_run_def hideToast_def)
  from toast_hidden_message_empty [of "[ShowToast ''saved'', HideToast]"] hidden
  show ?thesis by blast
qed


section \<open>Properties of the nickname editor\<close>

lemmas editor_defs =
  run_def world_initial_def EditNickname_initial_def onClick_change_def onChange_input_def
  input_disabled_def check_disabled_def save_disabled_def handleNicknameCheck_begin_def
  handleNicknameCheck_resume_def handleSave_begin_def handleClickOutside_def drop_nth_def

subsection \<open>Checking a nickname\<close>

lemma step_inflight_inv: "inflight_inv w \<Longrightarrow> inflight_inv (step e w)"
proof (cases e)
  case ClickChange
  assume "inflight_inv w"
  with ClickChange show ?thesis by (simp add: inflight_inv_def onClick_change_def)
next
  case (TypeInput v)
  assume "inflight_inv w"
  with TypeInput show ?thesis
    by (auto simp add: inflight_inv_def onChange_input_def split: if_splits)
next
  case ClickCheck
  assume "inflight_inv w"
  with ClickCheck show ?thesis
    by (auto simp add: inflight_inv_def check_disabled_def handleNicknameCheck_begin_def
        split: if_splits)
next
  case ClickSave
  assume "inflight_inv w"
  with ClickSave show ?thesis
    by (auto simp add: inflight_inv_def handleSave_begin_def split: if_splits)
next
  case (MouseDown b)
  assume "inflight_inv w"
  with MouseDown show ?thesis
    by (auto simp add: inflight_inv_def handleClickOutside_def split: if_splits)
next
  case (CheckSettled i r)
  assume "inflight_inv w"
  with CheckSettled show ?thesis
    by (auto simp add: inflight_inv_def handleNicknameCheck_resume_def drop_nth_def
        split: if_splits)
next
  case (SaveSettled i r)
  assume inv: "inflight_inv w"
  show ?thesis
  proof (cases r)
    case (Fulfilled u)
    with SaveSettled inv show ?thesis
      by (auto simp add: inflight_inv_def split: if_splits)
  next
    case Rejected
    with SaveSettled inv show ?thesis
      by (auto simp add: inflight_inv_def split: if_splits)
  qed
qed

lemma run_inflight_inv: "inflight_inv w \<Longrightarrow> inflight_inv (run es w)"
  unfolding run_def
  by (induction es arbitrary: w) (simp_all add: step_inflight_inv)

text \<open>
  The guard against a second check sits in the button (line 122), not in the handler:
  \<open>handleNicknameCheck\<close> itself tests the draft only and would send a request whatever
  \<open>isLoading\<close> says.
\<close>

lemma handleNicknameCheck_begin_tests_draft_only:
  "newNickname s \<noteq> '''' \<Longrightarrow> snd (handleNicknameCheck_begin s) = Some (newNickname s)"
  by (simp add: handleNicknameCheck_begin_def)

text \<open>
  Claim C1. While a check is pending, a click on the check button changes nothing and
  sends nothing. Along every run of the component from its initial state at most one
  check is unanswered. Two clicks in a row on an enabled check button send exactly one
  request, for the draft.
\<close>

theorem check_single_flight:
  "(isLoading (comp w) \<longrightarrow> step ClickCheck w = w) \<and>
   length (checks (run es world_initial)) \<le> 1 \<and>
   (showNicknameEdit (comp w') \<and> \<not> check_disabled (comp w') \<longrightarrow>
      calls (run [ClickCheck, ClickCheck] w') =
        calls w' @ [ValidateNickname (newNickname (comp w'))] \<and>
      checks (run [ClickCheck, ClickCheck] w') = checks w' @ [newNickname (comp w')])"
proof (intro conjI)
  show "isLoading (comp w) \<longrightarrow> step ClickCheck w = w"
    by (simp add: check_disabled_def)
next
  have "inflight_inv world_initial"
    by (simp add: inflight_inv_def world_initial_def EditNickname_initial_def)
  then have "inflight_inv (run es world_initial)" by (rule run_inflight_inv)
  then show "length (checks (run es world_initial)) \<le> 1"
    by (simp add: inflight_inv_def split: if_splits)
next
  show "showNicknameEdit (comp w') \<and> \<not> check_disabled (comp w') \<longrightarrow>
      calls (run [ClickCheck, ClickCheck] w') =
        calls w' @ [ValidateNickname (newNickname (comp w'))] \<and>
      checks (run [ClickCheck, ClickCheck] w') = checks w' @ [newNickname (comp w')]"
    by (simp add: run_def check_disabled_def handleNicknameCheck_begin_def)
qed

theorem check_single_flight_witness:
  "isLoading (comp (run [ClickChange, TypeInput ''alice'', ClickCheck] world_initial)) \<and>
   step ClickCheck (run [ClickChange, TypeInput ''alice'', ClickCheck] world_initial) =
     run [ClickChange, TypeInput ''alice'', ClickCheck] world_initial \<and>
   length (checks (run [ClickChange, TypeInput ''alice'', ClickCheck, ClickCheck]
     world_initial)) \<le> 1 \<and>
   showNicknameEdit (comp (run [ClickChange, TypeInput ''alice''] world_initial)) \<and>
   \<not> check_disabled (comp (run [ClickChange, TypeInput ''alice''] world_initial)) \<and>
   calls (run [ClickCheck, ClickCheck] (run [ClickChange, TypeInput ''alice''] world_initial)) =
     [ValidateNickname ''alice''] \<and>
   checks (run [ClickCheck, ClickCheck] (run [ClickChange, TypeInput ''alice''] world_initial)) =
     [''alice'']"
proof -
  let ?typed = "run [ClickChange, TypeInput ''alice''] world_initial"
  let ?pending = "run [ClickChange, TypeInput ''alice'', ClickCheck] world_initial"
  have pending: "isLoading (comp ?pending)"
    by (simp add: editor_defs)
  have enabled: "showNicknameEdit (comp ?typed) \<and> \<not> check_disabled (comp ?typed)"
    by (simp add: editor_defs)
  have typed: "calls ?typed = [] \<and> checks ?typed = [] \<and> newNickname (comp ?typed) = ''alice''"
    by (simp add: editor_defs)
  from check_single_flight
    [of ?pending "[ClickChange, TypeInput ''alice'', ClickCheck, ClickCheck]" ?typed]
    pending enabled typed
  show ?thesis by simp
qed

lemma run_append: "run (es @ es') w = run es' (run es w)"
  by (simp add: run_def)

lemma step_awaiting:
  assumes "awaiting w" and "\<not> is_check_answer e"
  shows "awaiting (step e w)"
proof (cases e)
  case ClickChange
  with assms show ?thesis by (simp add: awaiting_def onClick_change_def)
next
  case (TypeInput v)
  with assms show ?thesis by (simp add: awaiting_def onChange_input_def)
next
  case ClickCheck
  with assms show ?thesis by (simp add: awaiting_def check_disabled_def)
next
  case ClickSave
  with assms show ?thesis by (simp add: awaiting_def save_disabled_def)
next
  case (MouseDown b)
  with assms show ?thesis by (simp add: awaiting_def handleClickOutside_def)
next
  case (CheckSettled i r)
  with assms show ?thesis by simp
next
  case (SaveSettled i r)
  with assms show ?thesis by (cases r) (simp_all add: awaiting_def)
qed

lemma run_awaiting:
  "awaiting w \<Longrightarrow> \<forall>e\<in>set mid. \<not> is_check_answer e \<Longrightarrow> awaiting (run mid w)"
  unfolding run_def
  by (induction mid arbitrary: w) (simp_all add: step_awaiting)

lemma step_awaiting_clean:
  assumes "awaiting_clean w" and "\<not> is_check_answer e" and "\<not> is_save_rejection e"
  shows "awaiting_clean (step e w)"
proof -
  from assms have aw: "awaiting (step e w)"
    by (simp add: awaiting_clean_def step_awaiting)
  have "\<not> isError (comp (step e w))"
  proof (cases e)
    case ClickChange
    with assms show ?thesis by (simp add: awaiting_clean_def onClick_change_def)
  next
    case (TypeInput v)
    with assms show ?thesis by (simp add: awaiting_clean_def onChange_input_def)
  next
    case ClickCheck
    with assms show ?thesis
      by (simp add: awaiting_clean_def awaiting_def check_disabled_def)
  next
    case ClickSave
    with assms show ?thesis
      by (simp add: awaiting_clean_def awaiting_def save_disabled_def)
  next
    case (MouseDown b)
    with assms show ?thesis by (simp add: awaiting_clean_def handleClickOutside_def)
  next
    case (CheckSettled i r)
    with assms show ?thesis by simp
  next
    case (SaveSettled i r)
    with assms show ?thesis by (cases r) (simp_all add: awaiting_clean_def)
  qed
  with aw show ?thesis by (simp add: awaiting_clean_def)
qed

lemma run_awaiting_clean:
  "awaiting_clean w \<Longrightarrow> \<forall>e\<in>set mid. \<not> is_check_answer e \<Longrightarrow>
     \<forall>e\<in>set mid. \<not> is_save_rejection e \<Longrightarrow> awaiting_clean (run mid w)"
  unfolding run_def
  by (induction mid arbitrary: w) (simp_all add: step_awaiting_clean)

lemma click_awaiting_clean:
  assumes "showNicknameEdit (before_check pre)" and "newNickname (before_check pre) \<noteq> ''''"
    and "\<not> isLoading (before_check pre)" and "\<not> isNicknameVerified (before_check pre)"
  shows "awaiting_clean (step ClickCheck (run pre world_initial))"
proof -
  have "inflight_inv world_initial"
    by (simp add: inflight_inv_def world_initial_def EditNickname_initial_def)
  then have "inflight_inv (run pre world_initial)" by (rule run_inflight_inv)
  with assms have "checks (run pre world_initial) = []"
    by (simp add: inflight_inv_def before_check_def)
  with assms show ?thesis
    by (simp add: awaiting_clean_def awaiting_def before_check_def check_disabled_def
        handleNicknameCheck_begin_def)
qed

lemma answer_awaited:
  "awaiting w \<Longrightarrow>
     comp (step (CheckSettled 0 r) w) = handleNicknameCheck_resume r (comp w)"
  by (simp add: awaiting_def)

text \<open>
  Claim C2 says that a check started from a state that passes the guard and answered
  with \<open>exists == false\<close> ends with the error flag unset. It need not: the handler
  clears \<open>isError\<close> before the call (line 43) and not after it (lines 50 to 53), so a
  rejection of an earlier save that arrives while the check is awaited (line 71) is
  still shown when the nickname is found free.
\<close>

theorem check_free_keeps_error_counterexample:
  "showNicknameEdit (before_check save_left_pending) \<and>
   newNickname (before_check save_left_pending) = ''bob'' \<and>
   \<not> isLoading (before_check save_left_pending) \<and>
   \<not> isNicknameVerified (before_check save_left_pending) \<and>
   isNicknameVerified (answered save_left_pending [SaveSettled 0 Rejected]
     (Fulfilled (ValidateResponse False ''''))) \<and>
   isError (answered save_left_pending [SaveSettled 0 Rejected]
     (Fulfilled (ValidateResponse False '''')))"
  by (simp add: before_check_def answered_def save_left_pending_def editor_defs)

text \<open>
  Claim C2, amended. Take a run of the component in which the check button of the open
  box is clicked in a state that passes the guard (the draft is not empty, no check is
  pending, the draft is not verified), and take any events handled between that click
  and the answer to the check. When the service answers that the nickname exists, the
  answer leaves \<open>isError\<close> set, \<open>errorMessage\<close> equal to the message of the answer and
  \<open>isNicknameVerified\<close> unset. When it answers that the nickname does not exist,
  \<open>isNicknameVerified\<close> is set, and \<open>isError\<close> is unset provided that no rejection of a
  save was handled in between. When the call is rejected, \<open>isError\<close> is set and
  \<open>errorMessage\<close> is the literal of line 56.
\<close>

theorem check_answer_outcomes:
  assumes "showNicknameEdit (before_check pre)"
    and "newNickname (before_check pre) \<noteq> ''''"
    and "\<not> isLoading (before_check pre)"
    and "\<not> isNicknameVerified (before_check pre)"
    and "\<forall>e\<in>set mid. \<not> is_check_answer e"
  shows "(isError (answered pre mid (Fulfilled (ValidateResponse True msg))) \<and>
          errorMessage (answered pre mid (Fulfilled (ValidateResponse True msg))) = msg \<and>
          \<not> isNicknameVerified (answered pre mid (Fulfilled (ValidateResponse True msg)))) \<and>
         (isNicknameVerified (answered pre mid (Fulfilled (ValidateResponse False msg))) \<and>
          ((\<forall>e\<in>set mid. \<not> is_save_rejection e) \<longrightarrow>
             \<not> isError (answered pre mid (Fulfilled (ValidateResponse False msg))))) \<and>
         (isError (answered pre mid Rejected) \<and>
          errorMessage (answered pre mid Rejected) = server_error_message)"
proof -
  let ?clicked = "step ClickCheck (run pre world_initial)"
  let ?w = "run mid ?clicked"
  have clicked: "awaiting_clean ?clicked"
    using assms(1-4) by (rule click_awaiting_clean)
  then have "awaiting ?clicked" by (simp add: awaiting_clean_def)
  with assms(5) have aw: "awaiting ?w" by (simp add: run_awaiting)
  then have unverified: "\<not> isNicknameVerified (comp ?w)" by (simp add: awaiting_def)
  have ans: "answered pre mid r = handleNicknameCheck_resume r (comp ?w)" for r
    unfolding answered_def using aw by (rule answer_awaited)
  have taken: "isError (answered pre mid (Fulfilled (ValidateResponse True msg))) \<and>
      errorMessage (answered pre mid (Fulfilled (ValidateResponse True msg))) = msg \<and>
      \<not> isNicknameVerified (answered pre mid (Fulfilled (ValidateResponse True msg)))"
    using unverified by (simp add: ans handleNicknameCheck_resume_def)
  have free: "isNicknameVerified (answered pre mid (Fulfilled (ValidateResponse False msg)))"
    by (simp add: ans handleNicknameCheck_resume_def)
  have quiet: "\<not> isError (answered pre mid (Fulfilled (ValidateResponse False msg)))"
    if "\<forall>e\<in>set mid. \<not> is_save_rejection e"
  proof -
    from clicked assms(5) that have "awaiting_clean ?w" by (simp add: run_awaiting_clean)
    then have "\<not> isError (comp ?w)" by (simp add: awaiting_clean_def)
    then show ?thesis by (simp add: ans handleNicknameCheck_resume_def)
  qed
  have failed: "isError (answered pre mid Rejected) \<and>
      errorMessage (answered pre mid Rejected) = server_error_message"
    by (simp add: ans handleNicknameCheck_resume_def)
  from taken free quiet failed show ?thesis by blast
qed

theorem check_answer_outcomes_witness:
  "showNicknameEdit (before_check save_left_pending) \<and>
   newNickname (before_check save_left_pending) \<noteq> '''' \<and>
   \<not> isLoading (before_check save_left_pending) \<and>
   \<not> isNicknameVerified (before_check save_left_pending) \<and>
   \<not> is_check_answer (MouseDown False) \<and> \<not> is_save_rejection (MouseDown False) \<and>
   \<not> is_check_answer ClickChange \<and> \<not> is_save_rejection ClickChange \<and>
   \<not> is_check_answer (SaveSettled 0 (Fulfilled ())) \<and>
   \<not> is_save_rejection (SaveSettled 0 (Fulfilled ())) \<and>
   (isError (answered save_left_pending
      [MouseDown False, ClickChange, SaveSettled 0 (Fulfilled ())]
      (Fulfilled (ValidateResponse True ''taken''))) \<and>
    errorMessage (answered save_left_pending
      [MouseDown False, ClickChange, SaveSettled 0 (Fulfilled ())]
      (Fulfilled (ValidateResponse True ''taken''))) = ''taken'' \<and>
    \<not> isNicknameVerified (answered save_left_pending
      [MouseDown False, ClickChange, SaveSettled 0 (Fulfilled ())]
      (Fulfilled (ValidateResponse True ''taken'')))) \<and>
   (isNicknameVerified (answered save_left_pending
      [MouseDown False, ClickChange, SaveSettled 0 (Fulfilled ())]
      (Fulfilled (ValidateResponse False ''taken''))) \<and>
    \<not> isError (answered save_left_pending
      [MouseDown False, ClickChange, SaveSettled 0 (Fulfilled ())]
      (Fulfilled (ValidateResponse False ''taken'')))) \<and>
   (isError (answered save_left_pending
      [MouseDown False, ClickChange, SaveSettled 0 (Fulfilled ())] Rejected) \<and>
    errorMessage (answered save_left_pending
      [MouseDown False, ClickChange, SaveSettled 0 (Fulfilled ())] Rejected) =
      server_error_message)"
proof -
  have box: "showNicknameEdit (before_check save_left_pending)"
    by (simp add: before_check_def save_left_pending_def editor_defs)
  have draft: "newNickname (before_check save_left_pending) \<noteq> ''''"
    by (simp add: before_check_def save_left_pending_def editor_defs)
  have idle: "\<not> isLoading (before_check save_left_pending)"
    by (simp add: before_check_def save_left_pending_def editor_defs)
  have fresh: "\<not> isNicknameVerified (before_check save_left_pending)"
    by (simp add: before_check_def save_left_pending_def editor_defs)
  have no_answer:
    "\<forall>e\<in>set [MouseDown False, ClickChange, SaveSettled 0 (Fulfilled ())].
       \<not> is_check_answer e"
    by simp
  have no_rejection:
    "\<forall>e\<in>set [MouseDown False, ClickChange, SaveSettled 0 (Fulfilled ())].
       \<not> is_save_rejection e"
    by simp
  from check_answer_outcomes [OF box draft idle fresh no_answer, of "''taken''"]
    box draft idle fresh no_rejection
  show ?thesis by simp
qed

subsection \<open>Opening the box\<close>

lemma saved_on_retry_reaches:
  "comp (run saved_on_retry world_initial) = closed_after_retry"
  by (simp add: saved_on_retry_def closed_after_retry_def editor_defs)

text \<open>
  Claim C3 says that the change button clears the draft and the two flags. It does not:
  the box closed by a successful second save still holds the draft \<open>alice\<close>, the
  verified flag and the error flag of the first save, and the button opens it with all
  three in place.
\<close>

theorem onClick_change_clears_counterexample:
  "comp (run saved_on_retry world_initial) = closed_after_retry \<and>
   \<not> showNicknameEdit closed_after_retry \<and>
   showNicknameEdit (onClick_change closed_after_retry) \<and>
   newNickname (onClick_change closed_after_retry) = ''alice'' \<and>
   isNicknameVerified (onClick_change closed_after_retry) \<and>
   isError (onClick_change closed_after_retry)"
  by (simp add: saved_on_retry_def closed_after_retry_def editor_defs)

text \<open>
  Claim C3, amended. The change button sets \<open>showNicknameEdit\<close> and leaves every other
  field of the component as it was: the draft, the verified flag, the error flag and
  its message, and the pending flag.
\<close>

theorem onClick_change_opens_only:
  "showNicknameEdit (onClick_change s) \<and>
   newNickname (onClick_change s) = newNickname s \<and>
   isNicknameVerified (onClick_change s) = isNicknameVerified s \<and>
   isError (onClick_change s) = isError s \<and>
   errorMessage (onClick_change s) = errorMessage s \<and>
   isLoading (onClick_change s) = isLoading s"
  by (simp add: onClick_change_def)

subsection \<open>Saving\<close>

text \<open>
  Claim C4. From a state with a verified draft \<open>v\<close>, a save whose update call is
  fulfilled calls \<open>updateNickname\<close> with \<open>v\<close>, then calls \<open>onNicknameChange\<close> with \<open>v\<close>,
  once, and nothing else; afterwards the box is closed.
\<close>

theorem handleSave_fulfilled:
  "isNicknameVerified s \<Longrightarrow> newNickname s = v \<Longrightarrow>
     snd (handleSave (Fulfilled ()) s) = [UpdateNickname v, OnNicknameChange v] \<and>
     count_list (snd (handleSave (Fulfilled ()) s)) (OnNicknameChange v) = 1 \<and>
     \<not> showNicknameEdit (fst (handleSave (Fulfilled ()) s))"
  by (simp add: handleSave_def handleSave_begin_def)

theorem handleSave_fulfilled_witness:
  "isNicknameVerified editing_verified \<and> newNickname editing_verified = ''alice'' \<and>
   snd (handleSave (Fulfilled ()) editing_verified) =
     [UpdateNickname ''alice'', OnNicknameChange ''alice''] \<and>
   count_list (snd (handleSave (Fulfilled ()) editing_verified))
     (OnNicknameChange ''alice'') = 1 \<and>
   \<not> showNicknameEdit (fst (handleSave (Fulfilled ()) editing_verified))"
proof -
  have verified: "isNicknameVerified editing_verified" by (simp add: editing_verified_def)
  have draft: "newNickname editing_verified = ''alice''" by (simp add: editing_verified_def)
  from handleSave_fulfilled [OF verified draft] verified draft
  show ?thesis by blast
qed



text \<open>
  Claim C6. From a state whose draft is not verified, a save does nothing, whatever the
  service would have answered: the handler returns at line 64 with the state as it was,
  no call is made and no error is set. The save button, disabled in such a state,
  delivers no click either.
\<close>

theorem handleSave_unverified_noop:
  "\<not> isNicknameVerified s \<Longrightarrow>
     handleSave r s = (s, []) \<and> handleSave_begin s = (s, None) \<and>
     step ClickSave (w\<lparr>comp := s\<rparr>) = w\<lparr>comp := s\<rparr>"
  by (simp add: handleSave_def handleSave_begin_def save_disabled_def)

theorem handleSave_unverified_noop_witness:
  "\<not> isNicknameVerified editing_draft \<and>
   handleSave (Fulfilled ()) editing_draft = (editing_draft, []) \<and>
   handleSave_begin editing_draft = (editing_draft, None) \<and>
   step ClickSave (world_initial\<lparr>comp := editing_draft\<rparr>) =
     world_initial\<lparr>comp := editing_draft\<rparr>"
proof -
  have unverified: "\<not> isNicknameVerified editing_draft" by (simp add: editing_draft_def)
  from handleSave_unverified_noop [OF unverified, of "Fulfilled ()" world_initial] unverified
  show ?thesis by blast
qed



subsection \<open>Clicking outside the box\<close>

text \<open>
  Claim C7. While the box is open, a mouse press outside it closes the box and clears
  \<open>isError\<close>, \<open>errorMessage\<close> and \<open>isNicknameVerified\<close>, whatever they were.
\<close>

theorem handleClickOutside_resets:
  "showNicknameEdit s \<Longrightarrow>
     \<not> showNicknameEdit (handleClickOutside False s) \<and>
     \<not> isError (handleClickOutside False s) \<and>
     errorMessage (handleClickOutside False s) = '''' \<and>
     \<not> isNicknameVerified (handleClickOutside False s)"
  by (simp add: handleClickOutside_def)

theorem handleClickOutside_resets_witness:
  "showNicknameEdit editing_save_failed \<and> isError editing_save_failed \<and>
   isNicknameVerified editing_save_failed \<and> errorMessage editing_save_failed \<noteq> '''' \<and>
   \<not> showNicknameEdit (handleClickOutside False editing_save_failed) \<and>
   \<not> isError (handleClickOutside False editing_save_failed) \<and>
   errorMessage (handleClickOutside False editing_save_failed) = '''' \<and>
   \<not> isNicknameVerified (handleClickOutside False editing_save_failed)"
proof -
  have editing: "showNicknameEdit editing_save_failed" by (simp add: editing_save_failed_def)
  have prior: "isError editing_save_failed \<and> isNicknameVerified editing_save_failed \<and>
      errorMessage editing_save_failed \<noteq> ''''"
    by (simp add: editing_save_failed_def update_failed_message_def)
  from handleClickOutside_resets [OF editing] editing prior
  show ?thesis by blast
qed

end
